theory Spec2Isabelle
  imports Complex_Main "HOL-Library.Sublist"
begin

section \<open>Values shared by the resilience module\<close>

text \<open>
  The wrapped operation is opaque to the module: all that the retry executor and the
  circuit breaker observe of it is what each invocation does. An invocation either
  returns a value, raises an exception that \<^verbatim>\<open>except Exception\<close> catches, or
  raises one that it does not catch (a \<^verbatim>\<open>BaseException\<close> outside
  \<^verbatim>\<open>Exception\<close>, such as \<^verbatim>\<open>KeyboardInterrupt\<close>). An operation is the
  sequence of these outcomes, indexed by the number of invocations made before.
\<close>

datatype ('e, 'a) outcome = Returns 'a | Raises 'e | Escapes 'e

type_synonym ('e, 'a) operation = "nat \<Rightarrow> ('e, 'a) outcome"

text \<open>
  What a function of the package raises: a built-in exception of the interpreter, the
  classes \<^verbatim>\<open>OllamaConnectionError\<close> and \<^verbatim>\<open>OllamaResponseError\<close> of
  exceptions.py with their messages, or the exception object of the wrapped operation,
  passed on as it is.
\<close>

datatype builtin_error = OverflowError | ZeroDivisionError | TypeError | ValueError

datatype 'e py_exn =
    Builtin builtin_error
  | OllamaConnectionError string
  | OllamaResponseError string
  | Raised 'e

section \<open>CircuitBreaker\<close>

text \<open>
  \<^verbatim>\<open>class CircuitBreaker\<close> of resilience.py. Timestamps are the values of
  \<^verbatim>\<open>time.time()\<close>; each method that reads the clock takes the value read as its
  first argument.
\<close>

record CircuitBreaker =
  failure_threshold :: int
  recovery_timeout :: real
  name :: string
  failure_count :: int
  last_failure_time :: "real option"
  is_open :: bool

definition CircuitBreaker_init :: "int \<Rightarrow> real \<Rightarrow> string \<Rightarrow> CircuitBreaker" where
  "CircuitBreaker_init threshold timeout nm =
     \<lparr>failure_threshold = threshold, recovery_timeout = timeout, name = nm,
      failure_count = 0, last_failure_time = None, is_open = False\<rparr>"

definition record_success :: "CircuitBreaker \<Rightarrow> CircuitBreaker" where
  "record_success self = self\<lparr>failure_count := 0, is_open := False\<rparr>"

definition record_failure :: "real \<Rightarrow> CircuitBreaker \<Rightarrow> CircuitBreaker" where
  "record_failure now self =
     (let self1 = self\<lparr>failure_count := failure_count self + 1,
                       last_failure_time := Some now\<rparr>
      in if failure_count self1 \<ge> failure_threshold self1
         then self1\<lparr>is_open := True\<rparr>
         else self1)"

definition should_attempt :: "real \<Rightarrow> CircuitBreaker \<Rightarrow> bool \<times> CircuitBreaker" where
  "should_attempt now self =
     (if \<not> is_open self then (True, self)
      else case last_failure_time self of
             None \<Rightarrow> (True, self)
           | Some t \<Rightarrow>
               (let elapsed = now - t
                in if elapsed > recovery_timeout self
                   then (True, self\<lparr>is_open := False, failure_count := 0\<rparr>)
                   else (False, self)))"

text \<open>
  \<^verbatim>\<open>call_async\<close>: the third component of the result counts the invocations of
  the wrapped function; \<open>t_check\<close> is the clock read by \<^verbatim>\<open>should_attempt\<close>,
  \<open>t_fail\<close> the one read by \<^verbatim>\<open>record_failure\<close>.
\<close>

definition call_async ::
  "CircuitBreaker \<Rightarrow> ('e, 'a) operation \<Rightarrow> nat \<Rightarrow> real \<Rightarrow> real
     \<Rightarrow> ('e py_exn + 'a) \<times> CircuitBreaker \<times> nat" where
  "call_async self func calls t_check t_fail =
     (case should_attempt t_check self of
        (False, self1) \<Rightarrow>
          (Inl (OllamaConnectionError
                 (''Circuit breaker '' @ name self1 @ '' is open. ''
                    @ ''Service appears to be unavailable.'')),
           self1, calls)
      | (True, self1) \<Rightarrow>
          (case func calls of
             Returns v \<Rightarrow> (Inr v, record_success self1, Suc calls)
           | Raises e \<Rightarrow> (Inl (Raised e), record_failure t_fail self1, Suc calls)
           | Escapes b \<Rightarrow> (Inl (Raised b), self1, Suc calls)))"

text \<open>
  The calls a client can make on a breaker, and a sequence of them run in order.
\<close>

datatype breaker_call = RecordSuccess | RecordFailure real | ShouldAttempt real

fun breaker_step :: "breaker_call \<Rightarrow> CircuitBreaker \<Rightarrow> CircuitBreaker" where
  "breaker_step RecordSuccess self = record_success self"
| "breaker_step (RecordFailure now) self = record_failure now self"
| "breaker_step (ShouldAttempt now) self = snd (should_attempt now self)"

definition breaker_run :: "breaker_call list \<Rightarrow> CircuitBreaker \<Rightarrow> CircuitBreaker" where
  "breaker_run cs self = fold breaker_step cs self"

text \<open>
  The invariant of the breaker: an open breaker has a last failure time and a failure
  count that has reached the threshold.
\<close>

definition breaker_inv :: "CircuitBreaker \<Rightarrow> bool" where
  "breaker_inv self \<longleftrightarrow>
     (is_open self \<longrightarrow>
        last_failure_time self \<noteq> None \<and> failure_threshold self \<le> failure_count self)"

section \<open>RetryConfig and the delay policy\<close>

record RetryConfig =
  max_retries :: int
  initial_delay :: real
  max_delay :: real
  exponential_base :: real
  jitter :: bool

text \<open>\<^verbatim>\<open>RetryConfig()\<close>: the defaults of the constructor.\<close>

definition RetryConfig_default :: RetryConfig where
  "RetryConfig_default =
     \<lparr>max_retries = 3, initial_delay = 1, max_delay = 32, exponential_base = 2,
      jitter = True\<rparr>"

text \<open>
  Python's \<^verbatim>\<open>float\<close> is read as a real number: rounding is left out, the
  exceptions of float arithmetic are kept. \<^verbatim>\<open>x ** n\<close> with a float \<open>x\<close> and an
  int \<open>n\<close> converts \<open>n\<close> to a float (\<^verbatim>\<open>OverflowError\<close> when it is too
  large), raises \<^verbatim>\<open>ZeroDivisionError\<close> for zero to a negative power, and raises
  \<^verbatim>\<open>OverflowError\<close> when the result is beyond the largest finite double,
  \<open>(2 ^ 53 - 1) * 2 ^ 971\<close>. Multiplication and \<^verbatim>\<open>min\<close> do not raise.
\<close>

definition float_max :: real where
  "float_max = (2 ^ 53 - 1) * 2 ^ 971"

definition float_pow :: "real \<Rightarrow> int \<Rightarrow> builtin_error + real" where
  "float_pow x n =
     (if float_max < \<bar>real_of_int n\<bar> then Inl OverflowError
      else if x = 0 \<and> n < 0 then Inl ZeroDivisionError
      else let r = (if 0 \<le> n then x ^ nat n else inverse (x ^ nat (- n)))
           in if float_max < \<bar>r\<bar> then Inl OverflowError else Inr r)"

text \<open>
  \<^verbatim>\<open>RetryConfig.get_delay\<close>; \<open>rnd\<close> is the value that \<^verbatim>\<open>random.random()\<close>
  returns, a number in \<open>[0, 1)\<close>, read only when jitter is on.
\<close>

definition get_delay :: "RetryConfig \<Rightarrow> int \<Rightarrow> real \<Rightarrow> builtin_error + real" where
  "get_delay self attempt rnd =
     (case float_pow (exponential_base self) attempt of
        Inl err \<Rightarrow> Inl err
      | Inr p \<Rightarrow>
          (let delay = min (initial_delay self * p) (max_delay self)
           in if jitter self then Inr (delay * (0.5 + rnd)) else Inr delay))"

section \<open>The retry executor\<close>

text \<open>
  A run of the executor yields what it returns or raises, the number of invocations of
  the wrapped function, and the waits it made in order. \<open>rnd attempt\<close> is the random
  draw of the delay computed after the failure of \<open>attempt\<close>.
\<close>

datatype wait = AsyncioSleep real | TimeSleep real

fun seconds :: "wait \<Rightarrow> real" where
  "seconds (AsyncioSleep d) = d"
| "seconds (TimeSleep d) = d"

text \<open>
  The body of \<^verbatim>\<open>for attempt in range(config.max_retries + 1)\<close> in
  \<^verbatim>\<open>retry_async\<close>, and the \<^verbatim>\<open>raise last_exception\<close> after the loop.
\<close>

fun retry_async_attempts ::
  "RetryConfig \<Rightarrow> (int \<Rightarrow> real) \<Rightarrow> ('e, 'a) operation \<Rightarrow> int list \<Rightarrow> 'e option
     \<Rightarrow> nat \<Rightarrow> wait list \<Rightarrow> ('e py_exn + 'a) \<times> nat \<times> wait list" where
  "retry_async_attempts config rnd func [] last_exception calls waits =
     (case last_exception of
        None \<Rightarrow> (Inl (Builtin TypeError), calls, waits)
      | Some e \<Rightarrow> (Inl (Raised e), calls, waits))"
| "retry_async_attempts config rnd func (attempt # rest) last_exception calls waits =
     (case func calls of
        Returns v \<Rightarrow> (Inr v, Suc calls, waits)
      | Escapes b \<Rightarrow> (Inl (Raised b), Suc calls, waits)
      | Raises e \<Rightarrow>
          (if attempt < max_retries config then
             (case get_delay config attempt (rnd attempt) of
                Inl err \<Rightarrow> (Inl (Builtin err), Suc calls, waits)
              | Inr delay \<Rightarrow>
                  retry_async_attempts config rnd func rest (Some e) (Suc calls)
                    (waits @ [AsyncioSleep delay]))
           else retry_async_attempts config rnd func rest (Some e) (Suc calls) waits))"

definition retry_async ::
  "('e, 'a) operation \<Rightarrow> RetryConfig option \<Rightarrow> (int \<Rightarrow> real)
     \<Rightarrow> ('e py_exn + 'a) \<times> nat \<times> wait list" where
  "retry_async func config rnd =
     (let config = (case config of None \<Rightarrow> RetryConfig_default | Some c \<Rightarrow> c)
      in retry_async_attempts config rnd func [0..max_retries config] None 0 [])"

text \<open>
  \<^verbatim>\<open>time.sleep(secs)\<close>, with which \<^verbatim>\<open>retry_sync\<close> waits, does not accept
  every float: it converts the seconds to a signed 64-bit count of nanoseconds and
  raises \<^verbatim>\<open>OverflowError\<close> when that is out of range, then raises
  \<^verbatim>\<open>ValueError\<close> for a negative length. \<open>None\<close> stands for a sleep that
  completes. \<^verbatim>\<open>asyncio.sleep\<close> has neither check and completes for every delay.
\<close>

definition time_sleep :: "real \<Rightarrow> builtin_error option" where
  "time_sleep secs =
     (if \<not> (- (2 ^ 63) \<le> secs * 10 ^ 9 \<and> secs * 10 ^ 9 < 2 ^ 63) then Some OverflowError
      else if secs < 0 then Some ValueError
      else None)"

text \<open>
  The same for \<^verbatim>\<open>retry_sync\<close>, which waits with \<^verbatim>\<open>time.sleep\<close>: an
  exception of the sleep is raised inside the handler and leaves the loop.
\<close>

fun retry_sync_attempts ::
  "RetryConfig \<Rightarrow> (int \<Rightarrow> real) \<Rightarrow> ('e, 'a) operation \<Rightarrow> int list \<Rightarrow> 'e option
     \<Rightarrow> nat \<Rightarrow> wait list \<Rightarrow> ('e py_exn + 'a) \<times> nat \<times> wait list" where
  "retry_sync_attempts config rnd func [] last_exception calls waits =
     (case last_exception of
        None \<Rightarrow> (Inl (Builtin TypeError), calls, waits)
      | Some e \<Rightarrow> (Inl (Raised e), calls, waits))"
| "retry_sync_attempts config rnd func (attempt # rest) last_exception calls waits =
     (case func calls of
        Returns v \<Rightarrow> (Inr v, Suc calls, waits)
      | Escapes b \<Rightarrow> (Inl (Raised b), Suc calls, waits)
      | Raises e \<Rightarrow>
          (if attempt < max_retries config then
             (case get_delay config attempt (rnd attempt) of
                Inl err \<Rightarrow> (Inl (Builtin err), Suc calls, waits)
              | Inr delay \<Rightarrow>
                  (case time_sleep delay of
                     Some err \<Rightarrow> (Inl (Builtin err), Suc calls, waits)
                   | None \<Rightarrow>
                       retry_sync_attempts config rnd func rest (Some e) (Suc calls)
                         (waits @ [TimeSleep delay])))
           else retry_sync_attempts config rnd func rest (Some e) (Suc calls) waits))"

definition retry_sync ::
  "('e, 'a) operation \<Rightarrow> RetryConfig option \<Rightarrow> (int \<Rightarrow> real)
     \<Rightarrow> ('e py_exn + 'a) \<times> nat \<times> wait list" where
  "retry_sync func config rnd =
     (let config = (case config of None \<Rightarrow> RetryConfig_default | Some c \<Rightarrow> c)
      in retry_sync_attempts config rnd func [0..max_retries config] None 0 [])"

section \<open>check_model_available\<close>

text \<open>
  The values that \<^verbatim>\<open>response.json()\<close> yields. An object is the list of its
  items, with distinct keys, as the decoded \<^verbatim>\<open>dict\<close> holds them.
\<close>

datatype json =
    JNull
  | JBool bool
  | JInt int
  | JFloat real
  | JString string
  | JArray "json list"
  | JObject "(string \<times> json) list"

fun py_type :: "json \<Rightarrow> string" where
  "py_type JNull = ''NoneType''"
| "py_type (JBool b) = ''bool''"
| "py_type (JInt i) = ''int''"
| "py_type (JFloat x) = ''float''"
| "py_type (JString s) = ''str''"
| "py_type (JArray xs) = ''list''"
| "py_type (JObject kvs) = ''dict''"

text \<open>
  The operations of the interpreter that the function applies to the decoded value.
  Each returns either its value or, on the left, the text of the exception it raises
  (an \<^verbatim>\<open>AttributeError\<close> or a \<^verbatim>\<open>TypeError\<close>, both caught by
  \<^verbatim>\<open>except Exception\<close>).
\<close>

text \<open>\<^verbatim>\<open>x.get(key, default)\<close>: defined on a dict only.\<close>

definition dict_get :: "json \<Rightarrow> string \<Rightarrow> json \<Rightarrow> string + json" where
  "dict_get x key dflt =
     (case x of
        JObject kvs \<Rightarrow> Inr (case map_of kvs key of Some v \<Rightarrow> v | None \<Rightarrow> dflt)
      | _ \<Rightarrow> Inl ([CHR 0x27] @ py_type x @ [CHR 0x27] @ '' object has no attribute ''
                 @ [CHR 0x27] @ ''get'' @ [CHR 0x27]))"

text \<open>\<^verbatim>\<open>for m in x\<close>: the elements of a list, the keys of a dict, the characters of a str.\<close>

definition py_iter :: "json \<Rightarrow> string + json list" where
  "py_iter x =
     (case x of
        JArray xs \<Rightarrow> Inr xs
      | JObject kvs \<Rightarrow> Inr (map (\<lambda>kv. JString (fst kv)) kvs)
      | JString s \<Rightarrow> Inr (map (\<lambda>c. JString [c]) s)
      | _ \<Rightarrow> Inl ([CHR 0x27] @ py_type x @ [CHR 0x27] @ '' object is not iterable''))"

text \<open>\<^verbatim>\<open>sub in s\<close> on two strings: \<open>sub\<close> occurs in \<open>s\<close> as a contiguous piece.\<close>

fun str_in :: "string \<Rightarrow> string \<Rightarrow> bool" where
  "str_in sub [] = (sub = [])"
| "str_in sub (c # cs) = (prefix sub (c # cs) \<or> str_in sub cs)"

text \<open>
  \<^verbatim>\<open>model in m\<close> for a str \<open>model\<close>: the substring test on a str, membership in a
  list, key membership in a dict, a \<^verbatim>\<open>TypeError\<close> otherwise.
\<close>

definition py_in :: "string \<Rightarrow> json \<Rightarrow> string + bool" where
  "py_in model m =
     (case m of
        JString s \<Rightarrow> Inr (str_in model s)
      | JArray xs \<Rightarrow> Inr (JString model \<in> set xs)
      | JObject kvs \<Rightarrow> Inr (model \<in> fst ` set kvs)
      | _ \<Rightarrow> Inl (''argument of type '' @ [CHR 0x27] @ py_type m @ [CHR 0x27]
                 @ '' is not iterable''))"

text \<open>
  \<^verbatim>\<open>[m.get("name", "") for m in ...]\<close>: the comprehension builds the whole list and
  stops at the first element on which \<^verbatim>\<open>get\<close> raises.
\<close>

fun model_names :: "json list \<Rightarrow> string + json list" where
  "model_names [] = Inr []"
| "model_names (m # ms) =
     (case dict_get m ''name'' (JString []) of
        Inl err \<Rightarrow> Inl err
      | Inr nm \<Rightarrow> (case model_names ms of Inl err \<Rightarrow> Inl err | Inr nms \<Rightarrow> Inr (nm # nms)))"

text \<open>
  \<^verbatim>\<open>any(model in m for m in models)\<close>: the tests run in order and stop at the first
  that is true.
\<close>

fun any_model_in :: "string \<Rightarrow> json list \<Rightarrow> string + bool" where
  "any_model_in model [] = Inr False"
| "any_model_in model (m # ms) =
     (case py_in model m of
        Inl err \<Rightarrow> Inl err
      | Inr True \<Rightarrow> Inr True
      | Inr False \<Rightarrow> any_model_in model ms)"

text \<open>
  What the HTTP client does is given: the request \<^verbatim>\<open>client.get(url, timeout=timeout)\<close>
  either raises (an \<^verbatim>\<open>httpx.HTTPError\<close> or another exception, each with its text
  \<^verbatim>\<open>str(e)\<close>) or yields a response; \<^verbatim>\<open>raise_for_status()\<close> raises an
  \<^verbatim>\<open>httpx.HTTPError\<close> or not, and \<^verbatim>\<open>json()\<close> raises or yields the decoded
  body.
\<close>

datatype request_failure = HTTPError string | OtherException string

record response =
  status_error :: "string option"
  json_result :: "string + json"

text \<open>The decimal numeral of a natural number, as \<^verbatim>\<open>str\<close> prints it.\<close>

fun str_nat :: "nat \<Rightarrow> string" where
  "str_nat n =
     (if n < 10 then [''0123456789'' ! n]
      else str_nat (n div 10) @ [''0123456789'' ! (n mod 10)])"

text \<open>
  \<^verbatim>\<open>', '.join(models)\<close>: every item must be a str; at the first one that is not,
  \<^verbatim>\<open>join\<close> raises a \<^verbatim>\<open>TypeError\<close> that names its position and type.
  \<open>i\<close> is the position of the head of the list.
\<close>

fun join_items :: "nat \<Rightarrow> json list \<Rightarrow> string + string list" where
  "join_items i [] = Inr []"
| "join_items i (m # ms) =
     (case m of
        JString s \<Rightarrow>
          (case join_items (Suc i) ms of Inl err \<Rightarrow> Inl err | Inr ss \<Rightarrow> Inr (s # ss))
      | _ \<Rightarrow> Inl (''sequence item '' @ str_nat i @ '': expected str instance, ''
                 @ py_type m @ '' found''))"

fun intersperse_sep :: "string \<Rightarrow> string list \<Rightarrow> string" where
  "intersperse_sep sep [] = []"
| "intersperse_sep sep [s] = s"
| "intersperse_sep sep (s # ss) = s @ sep @ intersperse_sep sep ss"

definition str_join :: "string \<Rightarrow> json list \<Rightarrow> string + string" where
  "str_join sep xs =
     (case join_items 0 xs of Inl err \<Rightarrow> Inl err | Inr ss \<Rightarrow> Inr (intersperse_sep sep ss))"

text \<open>
  \<^verbatim>\<open>check_model_available\<close>; host, port and timeout only select the request,
  whose outcome is the second argument. When the model is not found, the warning that is
  logged joins the names, and an exception of the join is caught like any other.
\<close>

definition check_model_available ::
  "string \<Rightarrow> request_failure + response \<Rightarrow> 'e py_exn + bool" where
  "check_model_available model request =
     (let http = (\<lambda>msg. Inl (OllamaConnectionError
                               (''Error checking model availability: '' @ msg)));
          unexpected = (\<lambda>msg. Inl (OllamaConnectionError
                               (''Unexpected error checking model: '' @ msg)))
      in case request of
           Inl (HTTPError msg) \<Rightarrow> http msg
         | Inl (OtherException msg) \<Rightarrow> unexpected msg
         | Inr resp \<Rightarrow>
             (case status_error resp of
                Some msg \<Rightarrow> http msg
              | None \<Rightarrow>
                  (case json_result resp of
                     Inl msg \<Rightarrow> unexpected msg
                   | Inr data \<Rightarrow>
                       (case dict_get data ''models'' (JArray []) of
                          Inl msg \<Rightarrow> unexpected msg
                        | Inr listed \<Rightarrow>
                            (case py_iter listed of
                               Inl msg \<Rightarrow> unexpected msg
                             | Inr ms \<Rightarrow>
                                 (case model_names ms of
                                    Inl msg \<Rightarrow> unexpected msg
                                  | Inr models \<Rightarrow>
                                      (case any_model_in model models of
                                         Inl msg \<Rightarrow> unexpected msg
                                       | Inr available \<Rightarrow>
                                           (if available then Inr available
                                            else (case str_join '', '' models of
                                                    Inl msg \<Rightarrow> unexpected msg
                                                  | Inr listing \<Rightarrow> Inr available)))))))))"

section \<open>Streaming response decoder\<close>

text \<open>
  Modelled from the spec: the decoder of the streamed response lives in
  \<^verbatim>\<open>query_ollama\<close> of cli.py, which is not among the sources (only its tests and
  its caller in mcp_server.py are). A fragment is one decoded line, with its partial
  text and its completion flag.
\<close>

record StreamFragment =
  fragment_text :: string
  is_final :: bool

text \<open>
  Modelled from the spec: the lines of a line-delimited body, each ended by a newline
  (the last one possibly not); an empty body has no line.
\<close>

fun split_lines_from :: "string \<Rightarrow> string \<Rightarrow> string list" where
  "split_lines_from cur [] = (if cur = [] then [] else [cur])"
| "split_lines_from cur (c # cs) =
     (if c = CHR 0x0A then cur # split_lines_from [] cs
      else split_lines_from (cur @ [c]) cs)"

definition split_lines :: "string \<Rightarrow> string list" where
  "split_lines body = split_lines_from [] body"

text \<open>
  Modelled from the spec: the loop over the lines (section 4.5 of the specification).
  Every line is parsed; a line that does not parse is skipped; the text of a parsed
  line is appended in line order until a line with \<open>done = true\<close> has been appended,
  after which lines are still parsed and counted but no longer appended. \<open>parse\<close> is
  the JSON decoding of one line into a fragment, the library's part.
\<close>

fun decode_lines ::
  "(string \<Rightarrow> StreamFragment option) \<Rightarrow> string list \<Rightarrow> string \<Rightarrow> bool \<Rightarrow> nat
     \<Rightarrow> string \<times> nat" where
  "decode_lines parse [] acc stopped parsed = (acc, parsed)"
| "decode_lines parse (l # ls) acc stopped parsed =
     (case parse l of
        None \<Rightarrow> decode_lines parse ls acc stopped parsed
      | Some f \<Rightarrow>
          (if stopped then decode_lines parse ls acc True (Suc parsed)
           else decode_lines parse ls (acc @ fragment_text f) (is_final f) (Suc parsed)))"

text \<open>
  Modelled from the spec: the decoder fails with the response-validity error
  (\<^verbatim>\<open>OllamaResponseError\<close> of exceptions.py) when no line of the body parsed,
  and returns the accumulated text otherwise.
\<close>

definition decode_stream ::
  "(string \<Rightarrow> StreamFragment option) \<Rightarrow> string \<Rightarrow> 'e py_exn + string" where
  "decode_stream parse body =
     (case decode_lines parse (split_lines body) [] False 0 of
        (acc, parsed) \<Rightarrow>
          if parsed = 0 then Inl (OllamaResponseError ''Empty response from Ollama'')
          else Inr acc)"

text \<open>
  The analysis result as the data model of the specification words it: the texts of the
  fragments in arrival order, up to and including the first final one.
\<close>

definition analysis_result :: "StreamFragment list \<Rightarrow> string" where
  "analysis_result frags =
     concat (map fragment_text
       (takeWhile (\<lambda>f. \<not> is_final f) frags @ take 1 (dropWhile (\<lambda>f. \<not> is_final f) frags)))"

section \<open>Dockerfile block extractor\<close>

text \<open>
  Modelled from the spec: \<^verbatim>\<open>extract_dockerfile_content\<close> of cli.py, which is not
  among the sources (only its tests and its caller in mcp_server.py are). The fence is
  three backticks.
\<close>

definition fence :: string where
  "fence = [CHR 0x60, CHR 0x60, CHR 0x60]"

text \<open>
  Modelled from the spec: the text before and the text after the first fence, if there
  is a fence.
\<close>

fun split_at_fence :: "string \<Rightarrow> (string \<times> string) option" where
  "split_at_fence [] = None"
| "split_at_fence (c # cs) =
     (if prefix fence (c # cs) then Some ([], drop 3 (c # cs))
      else map_option (\<lambda>(before, after). (c # before, after)) (split_at_fence cs))"

text \<open>
  Modelled from the spec: the first fenced block. It opens at the first fence, whose
  line may carry a language label, and holds what lies between the end of that line and
  the next fence. Without a closing fence there is no block.
\<close>

definition first_fenced_block :: "string \<Rightarrow> string option" where
  "first_fenced_block txt =
     (case split_at_fence txt of
        None \<Rightarrow> None
      | Some (before, after) \<Rightarrow>
          (case split_at_fence after of
             None \<Rightarrow> None
           | Some (inner, rest) \<Rightarrow> Some (drop 1 (dropWhile (\<lambda>c. c \<noteq> CHR 0x0A) inner))))"

text \<open>
  Modelled from the spec: a blank line holds only spaces, tabs and carriage returns;
  trimming removes the blank lines at both ends of the block.
\<close>

definition is_blank :: "string \<Rightarrow> bool" where
  "is_blank l = list_all (\<lambda>c. c = CHR '' '' \<or> c = CHR 0x09 \<or> c = CHR 0x0D) l"

definition trim_blank_lines :: "string list \<Rightarrow> string list" where
  "trim_blank_lines ls = rev (dropWhile is_blank (rev (dropWhile is_blank ls)))"

fun join_lines :: "string list \<Rightarrow> string" where
  "join_lines [] = []"
| "join_lines [l] = l"
| "join_lines (l # ls) = l @ [CHR 0x0A] @ join_lines ls"

text \<open>
  Modelled from the spec: the extractor (section 4.6 of the specification). The first
  fenced block is trimmed; it is returned when its first line begins with the keyword
  \<^verbatim>\<open>FROM\<close>; in every other case the result is absent.
\<close>

definition extract_dockerfile_content :: "string \<Rightarrow> string option" where
  "extract_dockerfile_content txt =
     (case first_fenced_block txt of
        None \<Rightarrow> None
      | Some block \<Rightarrow>
          (case trim_blank_lines (split_lines block) of
             [] \<Rightarrow> None
           | l # ls \<Rightarrow> if prefix ''FROM'' l then Some (join_lines (l # ls)) else None))"

section \<open>Properties of the circuit breaker\<close>

lemma record_failure_fields:
  "failure_threshold (record_failure now self) = failure_threshold self"
  "recovery_timeout (record_failure now self) = recovery_timeout self"
  "failure_count (record_failure now self) = failure_count self + 1"
  "last_failure_time (record_failure now self) = Some now"
  by (simp_all add: record_failure_def Let_def)

lemma record_failure_is_open:
  "is_open (record_failure now self) \<longleftrightarrow>
     is_open self \<or> failure_threshold self \<le> failure_count self + 1"
  by (simp add: record_failure_def Let_def)

lemma fold_record_failure_fields:
  "failure_threshold (fold record_failure ts self) = failure_threshold self"
  "recovery_timeout (fold record_failure ts self) = recovery_timeout self"
  "failure_count (fold record_failure ts self) = failure_count self + int (length ts)"
  by (induction ts arbitrary: self) (simp_all add: record_failure_fields)

lemma fold_record_failure_last:
  "ts \<noteq> [] \<Longrightarrow> last_failure_time (fold record_failure ts self) = Some (last ts)"
  by (induction ts arbitrary: self) (auto simp: record_failure_fields)

lemma fold_record_failure_stays_open:
  "is_open self \<Longrightarrow> is_open (fold record_failure ts self)"
  by (induction ts arbitrary: self) (simp_all add: record_failure_is_open)

lemma fold_record_failure_opens:
  "failure_threshold self \<le> failure_count self + int (length ts) \<Longrightarrow> ts \<noteq> [] \<Longrightarrow>
     0 \<le> failure_count self \<Longrightarrow> 1 \<le> failure_threshold self \<Longrightarrow>
     is_open (fold record_failure ts self)"
proof (induction ts arbitrary: self rule: rev_induct)
  case Nil
  then show ?case by simp
next
  case (snoc t ts)
  have "failure_threshold (fold record_failure ts self)
          \<le> failure_count (fold record_failure ts self) + 1"
    using snoc.prems(1) by (simp add: fold_record_failure_fields)
  then show ?case by (simp add: record_failure_is_open)
qed

lemma fold_record_failure_stays_closed:
  "\<not> is_open self \<Longrightarrow> failure_count self + int (length ts) < failure_threshold self \<Longrightarrow>
     \<not> is_open (fold record_failure ts self)"
proof (induction ts arbitrary: self)
  case Nil
  then show ?case by simp
next
  case (Cons t ts)
  have closed: "\<not> is_open (record_failure t self)"
    using Cons.prems by (simp add: record_failure_is_open)
  have "failure_count (record_failure t self) + int (length ts)
          < failure_threshold (record_failure t self)"
    using Cons.prems(2) by (simp add: record_failure_fields)
  with closed show ?case using Cons.IH by simp
qed

lemma should_attempt_closed: "\<not> is_open self \<Longrightarrow> should_attempt now self = (True, self)"
  by (simp add: should_attempt_def)

lemma should_attempt_open_recent:
  "is_open self \<Longrightarrow> last_failure_time self = Some t \<Longrightarrow> now - t \<le> recovery_timeout self \<Longrightarrow>
     should_attempt now self = (False, self)"
  by (simp add: should_attempt_def Let_def)

lemma should_attempt_open_recovered:
  "is_open self \<Longrightarrow> last_failure_time self = Some t \<Longrightarrow> recovery_timeout self < now - t \<Longrightarrow>
     should_attempt now self = (True, self\<lparr>is_open := False, failure_count := 0\<rparr>)"
  by (simp add: should_attempt_def Let_def)

text \<open>
  Claim C2. The breaker's state machine. (1) From any state with a non-negative
  failure count and a positive threshold, \<open>failure_threshold\<close> consecutive
  \<^verbatim>\<open>record_failure\<close> calls (made at the times \<open>ts\<close>) leave the breaker open,
  and \<^verbatim>\<open>should_attempt\<close> answers false as long as less than
  \<open>recovery_timeout\<close> has passed since the last of them. (2) \<^verbatim>\<open>record_success\<close>
  sets the count to 0 and closes the breaker from any state, and \<^verbatim>\<open>should_attempt\<close>
  is true afterwards. (3) \<^verbatim>\<open>should_attempt\<close> on an open breaker, more than
  \<open>recovery_timeout\<close> after the last failure, answers true, closes the breaker and
  sets the count to 0. (4) While the run of consecutive failures (the count so far
  plus the new ones) stays below the threshold, a closed breaker stays closed.
\<close>

theorem circuit_breaker_state_machine:
  "(0 \<le> failure_count cb \<and> 1 \<le> failure_threshold cb
      \<and> int (length ts) = failure_threshold cb \<longrightarrow>
      is_open (fold record_failure ts cb)
      \<and> (\<forall>now. now - last ts < recovery_timeout cb \<longrightarrow>
             fst (should_attempt now (fold record_failure ts cb)) = False))
   \<and> (failure_count (record_success cb2) = 0 \<and> is_open (record_success cb2) = False
      \<and> (\<forall>now. fst (should_attempt now (record_success cb2)) = True))
   \<and> (is_open cb3 \<and> last_failure_time cb3 = Some t \<and> recovery_timeout cb3 < now' - t \<longrightarrow>
      fst (should_attempt now' cb3) = True
      \<and> is_open (snd (should_attempt now' cb3)) = False
      \<and> failure_count (snd (should_attempt now' cb3)) = 0)
   \<and> (\<not> is_open cb4 \<and> failure_count cb4 + int (length fs) < failure_threshold cb4 \<longrightarrow>
      \<not> is_open (fold record_failure fs cb4))"
proof (intro conjI impI allI)
  assume h: "0 \<le> failure_count cb \<and> 1 \<le> failure_threshold cb
      \<and> int (length ts) = failure_threshold cb"
  then have ne: "ts \<noteq> []" by auto
  show op: "is_open (fold record_failure ts cb)"
    using h ne by (intro fold_record_failure_opens) simp_all
  fix now
  assume recent: "now - last ts < recovery_timeout cb"
  have "should_attempt now (fold record_failure ts cb) = (False, fold record_failure ts cb)"
  proof (rule should_attempt_open_recent [where t = "last ts"])
    show "is_open (fold record_failure ts cb)" by (rule op)
    show "last_failure_time (fold record_failure ts cb) = Some (last ts)"
      by (rule fold_record_failure_last [OF ne])
    show "now - last ts \<le> recovery_timeout (fold record_failure ts cb)"
      using recent by (simp add: fold_record_failure_fields)
  qed
  then show "fst (should_attempt now (fold record_failure ts cb)) = False" by simp
next
  show "failure_count (record_success cb2) = 0" by (simp add: record_success_def)
next
  show "is_open (record_success cb2) = False" by (simp add: record_success_def)
next
  fix now
  show "fst (should_attempt now (record_success cb2)) = True"
    by (simp add: should_attempt_def record_success_def)
next
  assume h: "is_open cb3 \<and> last_failure_time cb3 = Some t \<and> recovery_timeout cb3 < now' - t"
  then have eq: "should_attempt now' cb3 = (True, cb3\<lparr>is_open := False, failure_count := 0\<rparr>)"
    using should_attempt_open_recovered [of cb3 t now'] by blast
  show "fst (should_attempt now' cb3) = True" using eq by simp
  show "is_open (snd (should_attempt now' cb3)) = False" using eq by simp
  show "failure_count (snd (should_attempt now' cb3)) = 0" using eq by simp
next
  assume "\<not> is_open cb4 \<and> failure_count cb4 + int (length fs) < failure_threshold cb4"
  then show "\<not> is_open (fold record_failure fs cb4)"
    using fold_record_failure_stays_closed [of cb4 fs] by blast
qed

theorem circuit_breaker_state_machine_witness:
  "(0 \<le> failure_count (CircuitBreaker_init 3 60 ''ollama'')
      \<and> 1 \<le> failure_threshold (CircuitBreaker_init 3 60 ''ollama'')
      \<and> int (length [10, 11, 12 :: real]) = failure_threshold (CircuitBreaker_init 3 60 ''ollama''))
   \<and> (is_open (fold record_failure [10, 11, 12] (CircuitBreaker_init 3 60 ''ollama''))
      \<and> 50 - last [10, 11, 12] < recovery_timeout (CircuitBreaker_init 3 60 ''ollama'')
      \<and> fst (should_attempt 50
                (fold record_failure [10, 11, 12] (CircuitBreaker_init 3 60 ''ollama'')))
           = False)
   \<and> (is_open (fold record_failure [10, 11, 12] (CircuitBreaker_init 3 60 ''ollama''))
      \<and> last_failure_time (fold record_failure [10, 11, 12] (CircuitBreaker_init 3 60 ''ollama''))
          = Some 12
      \<and> recovery_timeout (fold record_failure [10, 11, 12] (CircuitBreaker_init 3 60 ''ollama''))
          < 100 - 12)
   \<and> (fst (should_attempt 100
             (fold record_failure [10, 11, 12] (CircuitBreaker_init 3 60 ''ollama''))) = True
      \<and> is_open (snd (should_attempt 100
             (fold record_failure [10, 11, 12] (CircuitBreaker_init 3 60 ''ollama'')))) = False
      \<and> failure_count (snd (should_attempt 100
             (fold record_failure [10, 11, 12] (CircuitBreaker_init 3 60 ''ollama'')))) = 0)
   \<and> (\<not> is_open (CircuitBreaker_init 3 60 ''ollama'')
      \<and> failure_count (CircuitBreaker_init 3 60 ''ollama'') + int (length [1, 2 :: real])
          < failure_threshold (CircuitBreaker_init 3 60 ''ollama''))
   \<and> \<not> is_open (fold record_failure [1, 2] (CircuitBreaker_init 3 60 ''ollama''))"
  using circuit_breaker_state_machine
    [of "CircuitBreaker_init 3 60 ''ollama''" "[10, 11, 12]" cb2
        "fold record_failure [10, 11, 12] (CircuitBreaker_init 3 60 ''ollama'')" 12 100
        "CircuitBreaker_init 3 60 ''ollama''" "[1, 2]"]
  by (simp add: CircuitBreaker_init_def record_failure_def)

text \<open>
  Claim C3. \<^verbatim>\<open>call_async\<close>: when \<^verbatim>\<open>should_attempt\<close> answers false the call
  raises \<^verbatim>\<open>OllamaConnectionError\<close> with a message that contains the breaker's
  name, the operation is not invoked and the breaker is unchanged; otherwise the
  operation is invoked exactly once, a returned value is passed on after
  \<^verbatim>\<open>record_success\<close>, and an exception is passed on as it is after
  \<^verbatim>\<open>record_failure\<close>.
\<close>

theorem call_async_contract:
  "(fst (should_attempt t_check cb) = False \<longrightarrow>
      (\<exists>msg. call_async cb func calls t_check t_fail
                = (Inl (OllamaConnectionError msg), cb, calls)
             \<and> sublist (name cb) msg))
   \<and> (fst (should_attempt t_check2 cb2) = True \<and> func2 calls2 = Returns v \<longrightarrow>
        call_async cb2 func2 calls2 t_check2 t_fail2
          = (Inr v, record_success (snd (should_attempt t_check2 cb2)), Suc calls2))
   \<and> (fst (should_attempt t_check3 cb3) = True \<and> func3 calls3 = Raises e \<longrightarrow>
        call_async cb3 func3 calls3 t_check3 t_fail3
          = (Inl (Raised e), record_failure t_fail3 (snd (should_attempt t_check3 cb3)),
             Suc calls3))"
proof (intro conjI impI)
  assume closed: "fst (should_attempt t_check cb) = False"
  then have same: "should_attempt t_check cb = (False, cb)"
    by (auto simp: should_attempt_def Let_def split: if_splits option.splits)
  let ?msg = "''Circuit breaker '' @ name cb @ '' is open. ''
                @ ''Service appears to be unavailable.''"
  have "call_async cb func calls t_check t_fail = (Inl (OllamaConnectionError ?msg), cb, calls)"
    by (simp add: call_async_def same)
  moreover have "sublist (name cb) ?msg"
    unfolding sublist_def by blast
  ultimately show "\<exists>msg. call_async cb func calls t_check t_fail
                = (Inl (OllamaConnectionError msg), cb, calls)
             \<and> sublist (name cb) msg"
    by blast
next
  assume "fst (should_attempt t_check2 cb2) = True \<and> func2 calls2 = Returns v"
  then show "call_async cb2 func2 calls2 t_check2 t_fail2
          = (Inr v, record_success (snd (should_attempt t_check2 cb2)), Suc calls2)"
    by (cases "should_attempt t_check2 cb2") (simp add: call_async_def)
next
  assume "fst (should_attempt t_check3 cb3) = True \<and> func3 calls3 = Raises e"
  then show "call_async cb3 func3 calls3 t_check3 t_fail3
          = (Inl (Raised e), record_failure t_fail3 (snd (should_attempt t_check3 cb3)),
             Suc calls3)"
    by (cases "should_attempt t_check3 cb3") (simp add: call_async_def)
qed

theorem call_async_contract_witness:
  "fst (should_attempt 20
          (fold record_failure [10] (CircuitBreaker_init 1 60 ''ollama''))) = False
   \<and> (\<exists>msg. call_async (fold record_failure [10] (CircuitBreaker_init 1 60 ''ollama''))
               (\<lambda>_. Returns (1::nat) :: (string, nat) outcome) 0 20 21
             = (Inl (OllamaConnectionError msg),
                fold record_failure [10] (CircuitBreaker_init 1 60 ''ollama''), 0)
          \<and> sublist ''ollama'' msg)
   \<and> (fst (should_attempt 5 (CircuitBreaker_init 1 60 ''ollama'')) = True
      \<and> (\<lambda>_. Returns (1::nat) :: (string, nat) outcome) 0 = Returns 1)
   \<and> call_async (CircuitBreaker_init 1 60 ''ollama'')
        (\<lambda>_. Returns (1::nat) :: (string, nat) outcome) 0 5 6
       = (Inr 1, record_success (CircuitBreaker_init 1 60 ''ollama''), Suc 0)
   \<and> (fst (should_attempt 5 (CircuitBreaker_init 1 60 ''ollama'')) = True
      \<and> (\<lambda>_. Raises ''boom'' :: (string, nat) outcome) 0 = Raises ''boom'')
   \<and> call_async (CircuitBreaker_init 1 60 ''ollama'')
        (\<lambda>_. Raises ''boom'' :: (string, nat) outcome) 0 5 6
       = (Inl (Raised ''boom''), record_failure 6 (CircuitBreaker_init 1 60 ''ollama''), Suc 0)"
  using call_async_contract
    [of 20 "fold record_failure [10] (CircuitBreaker_init 1 60 ''ollama'')"
        "\<lambda>_. Returns (1::nat) :: (string, nat) outcome" 0 21
        5 "CircuitBreaker_init 1 60 ''ollama''"
        "\<lambda>_. Returns (1::nat) :: (string, nat) outcome" 0 1 6
        5 "CircuitBreaker_init 1 60 ''ollama''"
        "\<lambda>_. Raises ''boom'' :: (string, nat) outcome" 0 "''boom''" 6]
  by (simp add: CircuitBreaker_init_def record_failure_def should_attempt_def)

lemma breaker_step_inv:
  "breaker_inv self \<Longrightarrow> breaker_inv (breaker_step c self)"
  by (cases c)
     (auto simp: breaker_inv_def record_success_def record_failure_def should_attempt_def
           Let_def split: option.splits)

lemma breaker_run_inv:
  "breaker_inv self \<Longrightarrow> breaker_inv (breaker_run cs self)"
  unfolding breaker_run_def
  by (induction cs arbitrary: self) (simp_all add: breaker_step_inv)

lemma CircuitBreaker_init_inv: "breaker_inv (CircuitBreaker_init threshold timeout nm)"
  by (simp add: breaker_inv_def CircuitBreaker_init_def)

text \<open>
  Claim C10. In every state reached from a freshly constructed breaker by any sequence
  of \<^verbatim>\<open>record_success\<close>, \<^verbatim>\<open>record_failure\<close> and \<^verbatim>\<open>should_attempt\<close>
  calls, an open breaker has a recorded last failure time and a failure count of at
  least the threshold; so \<^verbatim>\<open>should_attempt\<close> never finds the breaker open with
  no last failure time, and its branch for that case is never taken.
\<close>

theorem reachable_open_invariant:
  "is_open (breaker_run cs (CircuitBreaker_init threshold timeout nm)) \<longrightarrow>
     last_failure_time (breaker_run cs (CircuitBreaker_init threshold timeout nm)) \<noteq> None
     \<and> failure_threshold (breaker_run cs (CircuitBreaker_init threshold timeout nm))
         \<le> failure_count (breaker_run cs (CircuitBreaker_init threshold timeout nm))
     \<and> \<not> (is_open (breaker_run cs (CircuitBreaker_init threshold timeout nm))
           \<and> last_failure_time (breaker_run cs (CircuitBreaker_init threshold timeout nm))
               = None)"
  using breaker_run_inv [OF CircuitBreaker_init_inv, of cs threshold timeout nm]
  by (auto simp: breaker_inv_def)

theorem reachable_open_invariant_witness:
  "is_open (breaker_run [RecordFailure 1, ShouldAttempt 2, RecordFailure 3]
              (CircuitBreaker_init 2 60 ''ollama''))
   \<and> last_failure_time (breaker_run [RecordFailure 1, ShouldAttempt 2, RecordFailure 3]
              (CircuitBreaker_init 2 60 ''ollama'')) \<noteq> None
   \<and> failure_threshold (breaker_run [RecordFailure 1, ShouldAttempt 2, RecordFailure 3]
              (CircuitBreaker_init 2 60 ''ollama''))
       \<le> failure_count (breaker_run [RecordFailure 1, ShouldAttempt 2, RecordFailure 3]
              (CircuitBreaker_init 2 60 ''ollama''))"
  using reachable_open_invariant
    [of "[RecordFailure 1, ShouldAttempt 2, RecordFailure 3]" 2 60 "''ollama''"]
  by (simp add: breaker_run_def CircuitBreaker_init_def record_failure_def should_attempt_def)

section \<open>Properties of the delay policy\<close>

lemma float_pow_nonneg:
  "0 \<le> n \<Longrightarrow> real_of_int n \<le> float_max \<Longrightarrow> \<bar>x ^ nat n\<bar> \<le> float_max \<Longrightarrow>
     float_pow x n = Inr (x ^ nat n)"
  by (simp add: float_pow_def Let_def)

lemma float_pow_overflow:
  "0 \<le> n \<Longrightarrow> float_max < \<bar>x ^ nat n\<bar> \<Longrightarrow> float_pow x n = Inl OverflowError"
  by (simp add: float_pow_def Let_def)

lemma get_delay_without_jitter:
  "\<not> jitter self \<Longrightarrow> float_pow (exponential_base self) attempt = Inr p \<Longrightarrow>
     get_delay self attempt rnd = Inr (min (initial_delay self * p) (max_delay self))"
  by (simp add: get_delay_def Let_def)

lemma get_delay_in_range:
  assumes "\<not> jitter self" "0 \<le> attempt" "real_of_int attempt \<le> float_max"
    and "\<bar>exponential_base self ^ nat attempt\<bar> \<le> float_max"
  shows "get_delay self attempt rnd
           = Inr (min (initial_delay self * exponential_base self ^ nat attempt) (max_delay self))"
  using assms by (simp add: get_delay_without_jitter float_pow_nonneg)

lemma get_delay_capped:
  "\<not> jitter self \<Longrightarrow> get_delay self attempt rnd = Inr d \<Longrightarrow> d \<le> max_delay self"
  by (auto simp: get_delay_def Let_def split: sum.splits)

lemma get_delay_jitter_range:
  assumes "jitter self" "0 \<le> rnd" "rnd < 1"
    and "get_delay (self\<lparr>jitter := False\<rparr>) attempt rnd = Inr d" "0 < d"
  shows "\<exists>dj. get_delay self attempt rnd = Inr dj \<and> 0.5 * d \<le> dj \<and> dj < 1.5 * d"
proof -
  from assms(4) obtain p where p: "float_pow (exponential_base self) attempt = Inr p"
    and d: "d = min (initial_delay self * p) (max_delay self)"
    by (auto simp: get_delay_def Let_def split: sum.splits)
  have "get_delay self attempt rnd = Inr (d * (0.5 + rnd))"
    using assms(1) p d by (simp add: get_delay_def Let_def)
  moreover have "0.5 * d \<le> d * (0.5 + rnd)"
    using assms(2,5) by (simp add: algebra_simps)
  moreover have "d * (0.5 + rnd) < 1.5 * d"
    using assms(3,5) by (simp add: algebra_simps)
  ultimately show ?thesis by blast
qed

lemma get_delay_overflows_eventually:
  assumes "1 < exponential_base self"
  shows "\<exists>attempt\<ge>0. \<forall>rnd. get_delay self attempt rnd = Inl OverflowError"
proof -
  obtain n where n: "float_max < exponential_base self ^ n"
    using real_arch_pow [OF assms] by blast
  have "float_pow (exponential_base self) (int n) = Inl OverflowError"
    using n by (simp add: float_pow_def Let_def)
  then have "\<forall>rnd. get_delay self (int n) rnd = Inl OverflowError"
    by (simp add: get_delay_def)
  then show ?thesis by (intro exI [of _ "int n"]) simp
qed

text \<open>
  Claim C4. With jitter off the delay is \<open>min (initial_delay * base ^ attempt) max_delay\<close>
  as long as the power is a finite double (\<open>get_delay_in_range\<close>). For the default
  policy with jitter off and attempt 1024 the formula gives 32, and the code raises
  \<^verbatim>\<open>OverflowError\<close> from \<^verbatim>\<open>2.0 ** 1024\<close> before \<^verbatim>\<open>min\<close> is applied.
\<close>

theorem get_delay_formula_fails_on_overflow:
  "get_delay (RetryConfig_default\<lparr>jitter := False\<rparr>) 1024 rnd = Inl OverflowError
   \<and> min (initial_delay (RetryConfig_default\<lparr>jitter := False\<rparr>)
            * exponential_base (RetryConfig_default\<lparr>jitter := False\<rparr>) ^ 1024)
          (max_delay (RetryConfig_default\<lparr>jitter := False\<rparr>)) = 32"
  by (simp add: get_delay_def float_pow_def float_max_def RetryConfig_default_def)

text \<open>
  Claim C5. A result of \<^verbatim>\<open>get_delay\<close> is capped (\<open>get_delay_capped\<close>) and a
  jittered one lies in \<open>[0.5 * d, 1.5 * d)\<close> (\<open>get_delay_jitter_range\<close>), but
  \<^verbatim>\<open>get_delay\<close> does not complete for every attempt: every policy with a base
  above 1 has attempts at which it raises (\<open>get_delay_overflows_eventually\<close>). For
  the default policy, attempt 2000 raises \<^verbatim>\<open>OverflowError\<close> whatever the random
  draw.
\<close>

theorem get_delay_large_attempt_raises:
  "get_delay RetryConfig_default 2000 rnd = Inl OverflowError"
  by (simp add: get_delay_def float_pow_def float_max_def RetryConfig_default_def)

section \<open>Properties of the retry executor\<close>

lemma retry_async_attempts_of_sync:
  assumes "\<forall>a\<in>set atts. \<forall>d. get_delay config a (rnd a) = Inr d \<longrightarrow> time_sleep d = None"
  shows "retry_async_attempts config rnd func atts lastx calls
             (map (\<lambda>w. AsyncioSleep (seconds w)) ws)
           = (case retry_sync_attempts config rnd func atts lastx calls ws of
                (r, n, ws') \<Rightarrow> (r, n, map (\<lambda>w. AsyncioSleep (seconds w)) ws'))"
  using assms
proof (induction atts arbitrary: lastx calls ws)
  case Nil
  show ?case by (simp split: option.splits)
next
  case (Cons attempt rest)
  have rest: "\<forall>a\<in>set rest. \<forall>d. get_delay config a (rnd a) = Inr d \<longrightarrow> time_sleep d = None"
    using Cons.prems by simp
  have sleeps: "time_sleep d = None" if "get_delay config attempt (rnd attempt) = Inr d" for d
    using Cons.prems that by simp
  have step: "retry_async_attempts config rnd func rest (Some e) (Suc calls)
                (map (\<lambda>w. AsyncioSleep (seconds w)) ws @ [AsyncioSleep d])
              = (case retry_sync_attempts config rnd func rest (Some e) (Suc calls)
                        (ws @ [TimeSleep d]) of
                   (r, n, ws') \<Rightarrow> (r, n, map (\<lambda>w. AsyncioSleep (seconds w)) ws'))" for e d
    using Cons.IH [OF rest, of "Some e" "Suc calls" "ws @ [TimeSleep d]"] by simp
  show ?case
    by (simp add: step sleeps Cons.IH [OF rest] split: outcome.splits sum.splits)
qed

lemma retry_sync_attempts_waits:
  "retry_sync_attempts config rnd func atts lastx calls (map TimeSleep ds0) = (r, n, ws) \<Longrightarrow>
     \<exists>ds. ws = map TimeSleep ds"
proof (induction atts arbitrary: lastx calls ds0)
  case Nil
  then show ?case by (auto split: option.splits)
next
  case (Cons attempt rest)
  show ?case
  proof (cases "func calls")
    case (Returns v)
    then show ?thesis using Cons.prems by auto
  next
    case (Escapes b)
    then show ?thesis using Cons.prems by auto
  next
    case (Raises e)
    show ?thesis
    proof (cases "attempt < max_retries config")
      case False
      then show ?thesis using Raises Cons.prems Cons.IH [of "Some e" "Suc calls" ds0] by simp
    next
      case True
      show ?thesis
      proof (cases "get_delay config attempt (rnd attempt)")
        case (Inl err)
        then show ?thesis using Raises True Cons.prems by auto
      next
        case (Inr delay)
        show ?thesis
        proof (cases "time_sleep delay")
          case (Some err)
          then show ?thesis using Raises True Inr Cons.prems by auto
        next
          case None
          then show ?thesis
            using Raises True Inr Cons.prems Cons.IH [of "Some e" "Suc calls" "ds0 @ [delay]"]
            by simp
        qed
      qed
    qed
  qed
qed

text \<open>
  As long as \<^verbatim>\<open>time.sleep\<close> accepts every delay that the policy computes, the
  two variants agree: same result, same number of invocations, same delays in the same
  order.
\<close>

lemma retry_sync_async_agree_when_sleepable:
  assumes "\<forall>a d. get_delay (case config of None \<Rightarrow> RetryConfig_default | Some c \<Rightarrow> c) a (rnd a)
                    = Inr d \<longrightarrow> time_sleep d = None"
  shows "\<exists>r n ds. retry_sync func config rnd = (r, n, map TimeSleep ds)
           \<and> retry_async func config rnd = (r, n, map AsyncioSleep ds)"
proof -
  define cfg where "cfg = (case config of None \<Rightarrow> RetryConfig_default | Some c \<Rightarrow> c)"
  have sleepable: "\<forall>a\<in>set [0..max_retries cfg].
                     \<forall>d. get_delay cfg a (rnd a) = Inr d \<longrightarrow> time_sleep d = None"
    using assms unfolding cfg_def by blast
  obtain r n ws where sync:
    "retry_sync_attempts cfg rnd func [0..max_retries cfg] None 0 (map TimeSleep []) = (r, n, ws)"
    using prod_cases3 by blast
  then obtain ds where ws: "ws = map TimeSleep ds"
    using retry_sync_attempts_waits by blast
  have "retry_async_attempts cfg rnd func [0..max_retries cfg] None 0
          (map (\<lambda>w. AsyncioSleep (seconds w)) [])
        = (r, n, map (\<lambda>w. AsyncioSleep (seconds w)) ws)"
    using sync by (simp only: retry_async_attempts_of_sync [OF sleepable]) simp
  then have "retry_async_attempts cfg rnd func [0..max_retries cfg] None 0 []
               = (r, n, map AsyncioSleep ds)"
    by (simp add: ws)
  moreover have "retry_sync_attempts cfg rnd func [0..max_retries cfg] None 0 []
               = (r, n, map TimeSleep ds)"
    using sync ws by simp
  ultimately show ?thesis
    unfolding retry_sync_def retry_async_def Let_def cfg_def by blast
qed

text \<open>
  The delays of a policy with non-negative parameters and a cap whose jittered value
  stays within 64-bit nanoseconds are accepted by \<^verbatim>\<open>time.sleep\<close>; the default
  policy is one.
\<close>

lemma get_delay_sleepable:
  assumes "0 \<le> initial_delay self" "0 \<le> exponential_base self" "0 \<le> max_delay self"
    and "max_delay self * 15 * 10 ^ 8 < 2 ^ 63"
    and "0 \<le> rnd" "rnd < 1"
    and "get_delay self attempt rnd = Inr d"
  shows "time_sleep d = None"
proof -
  obtain p where p: "float_pow (exponential_base self) attempt = Inr p"
    and d: "d = (let delay = min (initial_delay self * p) (max_delay self)
                 in if jitter self then delay * (0.5 + rnd) else delay)"
    using assms(7) by (auto simp: get_delay_def Let_def split: sum.splits if_splits)
  have "0 \<le> p"
    using p assms(2) by (auto simp: float_pow_def Let_def split: if_splits)
  define delay where "delay = min (initial_delay self * p) (max_delay self)"
  have lo: "0 \<le> delay" and hi: "delay \<le> max_delay self"
    using assms(1,3) \<open>0 \<le> p\<close> by (simp_all add: delay_def)
  have d_lo: "0 \<le> d"
    using lo assms(5) by (simp add: d delay_def [symmetric] Let_def)
  have "d \<le> delay * (3 / 2)"
  proof (cases "jitter self")
    case True
    have "delay * (0.5 + rnd) \<le> delay * (3 / 2)"
      using lo assms(6) by (intro mult_left_mono) simp_all
    then show ?thesis using True by (simp add: d delay_def [symmetric] Let_def)
  next
    case False
    have "delay * 1 \<le> delay * (3 / 2)"
      using lo by (intro mult_left_mono) simp_all
    then show ?thesis using False by (simp add: d delay_def [symmetric] Let_def)
  qed
  also have "\<dots> \<le> max_delay self * (3 / 2)"
    using hi by simp
  finally have "d * 10 ^ 9 \<le> max_delay self * 15 * 10 ^ 8"
    by simp
  then have d_hi: "d * 10 ^ 9 < 2 ^ 63"
    using assms(4) by linarith
  have "- (2 ^ 63) \<le> d * 10 ^ 9"
    using d_lo by (simp add: order_trans [of _ 0])
  then show ?thesis
    using d_lo d_hi by (simp add: time_sleep_def)
qed

lemma default_policy_sleepable:
  assumes "0 \<le> rnd" "rnd < 1" "get_delay RetryConfig_default attempt rnd = Inr d"
  shows "time_sleep d = None"
proof (rule get_delay_sleepable [of RetryConfig_default rnd attempt d])
  show "0 \<le> initial_delay RetryConfig_default" by (simp add: RetryConfig_default_def)
  show "0 \<le> exponential_base RetryConfig_default" by (simp add: RetryConfig_default_def)
  show "0 \<le> max_delay RetryConfig_default" by (simp add: RetryConfig_default_def)
  show "max_delay RetryConfig_default * 15 * 10 ^ 8 < 2 ^ 63"
    by (simp add: RetryConfig_default_def)
  show "0 \<le> rnd" by (rule assms(1))
  show "rnd < 1" by (rule assms(2))
  show "get_delay RetryConfig_default attempt rnd = Inr d" by (rule assms(3))
qed

text \<open>
  Claim C8. The two variants do not have identical semantics for every policy: the
  delay is handed to \<^verbatim>\<open>time.sleep\<close> in the one and to \<^verbatim>\<open>asyncio.sleep\<close>
  in the other, and only the first refuses a delay. With
  \<^verbatim>\<open>initial_delay = max_delay = 1e10\<close> and an operation that fails on every
  invocation, \<^verbatim>\<open>retry_sync\<close> raises \<^verbatim>\<open>OverflowError\<close> after one invocation,
  while \<^verbatim>\<open>retry_async\<close> invokes the operation four times and raises its failure.
  Where \<^verbatim>\<open>time.sleep\<close> accepts the delays the two agree
  (\<open>retry_sync_async_agree_when_sleepable\<close>, \<open>get_delay_sleepable\<close>,
  \<open>default_policy_sleepable\<close>).
\<close>

theorem retry_sync_stops_on_sleep_overflow:
  "retry_sync (\<lambda>_. Raises ''boom'' :: (string, nat) outcome)
     (Some \<lparr>max_retries = 3, initial_delay = 10 ^ 10, max_delay = 10 ^ 10,
            exponential_base = 2, jitter = False\<rparr>) rnd
   = (Inl (Builtin OverflowError), 1, [])
   \<and> retry_async (\<lambda>_. Raises ''boom'' :: (string, nat) outcome)
     (Some \<lparr>max_retries = 3, initial_delay = 10 ^ 10, max_delay = 10 ^ 10,
            exponential_base = 2, jitter = False\<rparr>) rnd
   = (Inl (Raised ''boom''), 4,
      [AsyncioSleep (10 ^ 10), AsyncioSleep (10 ^ 10), AsyncioSleep (10 ^ 10)])"
  by (simp add: retry_async_def retry_sync_def get_delay_def float_pow_def float_max_def
        time_sleep_def upto.simps)

lemma retry_async_attempts_succeeds:
  assumes "\<forall>i<k. \<exists>e. func (c + i) = Raises e"
    and "func (c + k) = Returns v"
    and "a + int k \<le> max_retries config"
    and "\<forall>j. a \<le> j \<and> j < a + int k \<longrightarrow> (\<exists>d. get_delay config j (rnd j) = Inr d)"
  shows "\<exists>ws'. retry_async_attempts config rnd func [a..max_retries config] lastx c ws
                 = (Inr v, c + k + 1, ws')"
  using assms
proof (induction k arbitrary: a c lastx ws)
  case 0
  then have "[a..max_retries config] = a # [a + 1..max_retries config]"
    by (simp add: upto_rec1)
  then show ?case using "0.prems"(2) by simp
next
  case (Suc k)
  obtain e where e: "func c = Raises e"
    using Suc.prems(1) by force
  have lt: "a < max_retries config" using Suc.prems(3) by simp
  then have unroll: "[a..max_retries config] = a # [a + 1..max_retries config]"
    by (simp add: upto_rec1)
  obtain d where d: "get_delay config a (rnd a) = Inr d"
    using Suc.prems(4) by force
  have "\<exists>ws'. retry_async_attempts config rnd func [a + 1..max_retries config] (Some e) (Suc c)
                 (ws @ [AsyncioSleep d]) = (Inr v, Suc c + k + 1, ws')"
  proof (rule Suc.IH)
    show "\<forall>i<k. \<exists>e. func (Suc c + i) = Raises e"
      using Suc.prems(1) by (metis Suc_less_eq add_Suc_shift)
    show "func (Suc c + k) = Returns v" using Suc.prems(2) by simp
    show "a + 1 + int k \<le> max_retries config" using Suc.prems(3) by simp
    show "\<forall>j. a + 1 \<le> j \<and> j < a + 1 + int k \<longrightarrow> (\<exists>d. get_delay config j (rnd j) = Inr d)"
      using Suc.prems(4) by simp
  qed
  then show ?case using e lt d unroll by simp
qed

lemma retry_async_attempts_exhausted:
  assumes "m = nat (max_retries config - a)" "a \<le> max_retries config"
    and "\<forall>i<m. \<exists>e. func (c + i) = Raises e"
    and "func (c + m) = Raises e_last"
    and "\<forall>j. a \<le> j \<and> j < max_retries config \<longrightarrow> (\<exists>d. get_delay config j (rnd j) = Inr d)"
  shows "\<exists>ws'. retry_async_attempts config rnd func [a..max_retries config] lastx c ws
                 = (Inl (Raised e_last), c + m + 1, ws')"
  using assms
proof (induction m arbitrary: a c lastx ws)
  case 0
  then have "a = max_retries config" by simp
  then have "[a..max_retries config] = [a]" by simp
  then show ?case using "0.prems"(4) \<open>a = max_retries config\<close> by simp
next
  case (Suc m)
  obtain e where e: "func c = Raises e"
    using Suc.prems(3) by force
  have lt: "a < max_retries config" using Suc.prems(1) by simp
  then have unroll: "[a..max_retries config] = a # [a + 1..max_retries config]"
    by (simp add: upto_rec1)
  obtain d where d: "get_delay config a (rnd a) = Inr d"
    using Suc.prems(5) lt by force
  have "\<exists>ws'. retry_async_attempts config rnd func [a + 1..max_retries config] (Some e) (Suc c)
                 (ws @ [AsyncioSleep d]) = (Inl (Raised e_last), Suc c + m + 1, ws')"
  proof (rule Suc.IH)
    show "m = nat (max_retries config - (a + 1))" using Suc.prems(1) by simp
    show "a + 1 \<le> max_retries config" using lt by simp
    show "\<forall>i<m. \<exists>e. func (Suc c + i) = Raises e"
      using Suc.prems(3) by (metis Suc_less_eq add_Suc_shift)
    show "func (Suc c + m) = Raises e_last" using Suc.prems(4) by simp
    show "\<forall>j. a + 1 \<le> j \<and> j < max_retries config \<longrightarrow> (\<exists>d. get_delay config j (rnd j) = Inr d)"
      using Suc.prems(5) by simp
  qed
  then show ?case using e lt d unroll by simp
qed

lemma retry_async_succeeds_after:
  assumes "int k \<le> max_retries config"
    and "\<forall>i<k. \<exists>e. func i = Raises e" and "func k = Returns v"
    and "\<forall>j. 0 \<le> j \<and> j < int k \<longrightarrow> (\<exists>d. get_delay config j (rnd j) = Inr d)"
  shows "\<exists>ws. retry_async func (Some config) rnd = (Inr v, k + 1, ws)"
  using retry_async_attempts_succeeds [of k func 0 v 0 config rnd None "[]"] assms
  by (simp add: retry_async_def)

lemma retry_async_exhausted:
  assumes "0 \<le> max_retries config"
    and "\<forall>i<nat (max_retries config). \<exists>e. func i = Raises e"
    and "func (nat (max_retries config)) = Raises e_last"
    and "\<forall>j. 0 \<le> j \<and> j < max_retries config \<longrightarrow> (\<exists>d. get_delay config j (rnd j) = Inr d)"
  shows "\<exists>ws. retry_async func (Some config) rnd
                = (Inl (Raised e_last), nat (max_retries config) + 1, ws)"
  using retry_async_attempts_exhausted
          [of "nat (max_retries config)" config 0 func 0 e_last rnd None "[]"] assms
  by (simp add: retry_async_def)

text \<open>
  Claim C1. When no delay computation raises, the executor behaves as the claim says
  (\<open>retry_async_succeeds_after\<close>, \<open>retry_async_exhausted\<close>). The delay is computed
  inside the exception handler, though, and an \<^verbatim>\<open>OverflowError\<close> of
  \<^verbatim>\<open>get_delay\<close> leaves the loop: with \<^verbatim>\<open>max_retries = 3\<close> and
  \<^verbatim>\<open>exponential_base = 1e200\<close>, an operation that fails on every invocation is
  invoked three times, not four, and the executor raises \<^verbatim>\<open>OverflowError\<close>, not
  the operation's failure. Both variants do so.
\<close>

theorem retry_stops_on_delay_overflow:
  "retry_async (\<lambda>_. Raises ''boom'' :: (string, nat) outcome)
     (Some \<lparr>max_retries = 3, initial_delay = 1, max_delay = 32,
            exponential_base = 10 ^ 200, jitter = False\<rparr>) rnd
   = (Inl (Builtin OverflowError), 3, [AsyncioSleep 1, AsyncioSleep 32])
   \<and> retry_sync (\<lambda>_. Raises ''boom'' :: (string, nat) outcome)
     (Some \<lparr>max_retries = 3, initial_delay = 1, max_delay = 32,
            exponential_base = 10 ^ 200, jitter = False\<rparr>) rnd
   = (Inl (Builtin OverflowError), 3, [TimeSleep 1, TimeSleep 32])"
  by (simp add: retry_async_def retry_sync_def get_delay_def float_pow_def float_max_def
        time_sleep_def upto.simps)

section \<open>Properties of check_model_available\<close>

lemma str_in_sublist: "str_in sub s \<longleftrightarrow> sublist sub s"
  by (induction s) (simp_all add: sublist_Cons_right)

lemma model_names_well_formed:
  "list_all2 (\<lambda>m n. \<exists>kvs. m = JObject kvs \<and> map_of kvs ''name'' = Some (JString n)) ms names \<Longrightarrow>
     model_names ms = Inr (map JString names)"
  by (induction ms names rule: list_all2_induct) (auto simp: dict_get_def)

lemma any_model_in_strings:
  "any_model_in model (map JString names) = Inr (\<exists>n\<in>set names. sublist model n)"
  by (induction names) (auto simp: py_in_def str_in_sublist split: bool.splits)

lemma join_items_strings: "join_items i (map JString names) = Inr names"
  by (induction names arbitrary: i) simp_all

lemma str_join_strings: "\<exists>listing. str_join sep (map JString names) = Inr listing"
  by (simp add: str_join_def join_items_strings)

lemma check_model_available_raises_connection_error:
  "(\<exists>b. check_model_available model request = Inr b)
   \<or> (\<exists>msg. check_model_available model request = Inl (OllamaConnectionError msg))"
  unfolding check_model_available_def Let_def
  by (simp split: sum.splits request_failure.splits option.splits)

text \<open>
  A name that is not a string and does not match reaches the join of the warning, whose
  \<^verbatim>\<open>TypeError\<close> is raised as \<^verbatim>\<open>OllamaConnectionError\<close>.
\<close>

lemma check_model_available_join_raises:
  "check_model_available ''llama3''
     (Inr \<lparr>status_error = None,
           json_result = Inr (JObject [(''models'',
             JArray [JObject [(''name'', JArray [JString ''llama3:8b''])]])])\<rparr>)
   = Inl (OllamaConnectionError
            (''Unexpected error checking model: ''
               @ ''sequence item 0: expected str instance, list found''))"
  by (simp add: check_model_available_def dict_get_def py_iter_def py_in_def str_join_def)

text \<open>
  Claim C9. On a listing whose models are objects with a string name,
  \<^verbatim>\<open>check_model_available\<close> returns whether the requested model occurs as a
  substring of some listed name. A failure of the request, and a failing status, is
  raised as \<^verbatim>\<open>OllamaConnectionError\<close>; and whatever the request yields, the
  function either returns a truth value or raises \<^verbatim>\<open>OllamaConnectionError\<close>.
\<close>

theorem check_model_available_contract:
  "(map_of items ''models'' = Some (JArray ms)
      \<and> list_all2 (\<lambda>m n. \<exists>kvs. m = JObject kvs \<and> map_of kvs ''name'' = Some (JString n))
           ms names \<longrightarrow>
      check_model_available model
          (Inr \<lparr>status_error = None, json_result = Inr (JObject items)\<rparr>)
        = Inr (\<exists>n\<in>set names. sublist model n))
   \<and> (\<exists>msg. check_model_available model2 (Inl failure) = Inl (OllamaConnectionError msg))
   \<and> (\<exists>msg. check_model_available model3 (Inr \<lparr>status_error = Some err, json_result = body\<rparr>)
               = Inl (OllamaConnectionError msg))
   \<and> ((\<exists>b. check_model_available model4 request = Inr b)
      \<or> (\<exists>msg. check_model_available model4 request = Inl (OllamaConnectionError msg)))"
proof (intro conjI impI)
  assume h: "map_of items ''models'' = Some (JArray ms)
      \<and> list_all2 (\<lambda>m n. \<exists>kvs. m = JObject kvs \<and> map_of kvs ''name'' = Some (JString n))
           ms names"
  then have "model_names ms = Inr (map JString names)"
    by (simp add: model_names_well_formed)
  then show "check_model_available model
          (Inr \<lparr>status_error = None, json_result = Inr (JObject items)\<rparr>)
        = Inr (\<exists>n\<in>set names. sublist model n)"
    using h
    by (simp add: check_model_available_def dict_get_def py_iter_def any_model_in_strings
          str_join_def join_items_strings)
next
  show "\<exists>msg. check_model_available model2 (Inl failure) = Inl (OllamaConnectionError msg)"
    by (cases failure) (simp_all add: check_model_available_def)
next
  show "\<exists>msg. check_model_available model3 (Inr \<lparr>status_error = Some err, json_result = body\<rparr>)
               = Inl (OllamaConnectionError msg)"
    by (simp add: check_model_available_def)
next
  show "(\<exists>b. check_model_available model4 request = Inr b)
      \<or> (\<exists>msg. check_model_available model4 request = Inl (OllamaConnectionError msg))"
    by (rule check_model_available_raises_connection_error)
qed

theorem check_model_available_contract_witness:
  "(map_of [(''models'',
             JArray [JObject [(''name'', JString ''llama3:8b''), (''size'', JInt 4)],
                     JObject [(''name'', JString ''qwen2.5-coder:7b'')]])] ''models''
      = Some (JArray [JObject [(''name'', JString ''llama3:8b''), (''size'', JInt 4)],
                      JObject [(''name'', JString ''qwen2.5-coder:7b'')]])
    \<and> list_all2 (\<lambda>m n. \<exists>kvs. m = JObject kvs \<and> map_of kvs ''name'' = Some (JString n))
         [JObject [(''name'', JString ''llama3:8b''), (''size'', JInt 4)],
          JObject [(''name'', JString ''qwen2.5-coder:7b'')]]
         [''llama3:8b'', ''qwen2.5-coder:7b''])
   \<and> check_model_available ''qwen2.5-coder''
        (Inr \<lparr>status_error = None,
              json_result = Inr (JObject [(''models'',
                JArray [JObject [(''name'', JString ''llama3:8b''), (''size'', JInt 4)],
                        JObject [(''name'', JString ''qwen2.5-coder:7b'')]])])\<rparr>)
       = (Inr True :: string py_exn + bool)"
  using check_model_available_contract
    [THEN conjunct1,
     of "[(''models'',
             JArray [JObject [(''name'', JString ''llama3:8b''), (''size'', JInt 4)],
                     JObject [(''name'', JString ''qwen2.5-coder:7b'')]])]"
        "[JObject [(''name'', JString ''llama3:8b''), (''size'', JInt 4)],
          JObject [(''name'', JString ''qwen2.5-coder:7b'')]]"
        "[''llama3:8b'', ''qwen2.5-coder:7b'']" "''qwen2.5-coder''"]
  by (simp add: str_in_sublist [symmetric])

section \<open>Properties of the streaming response decoder\<close>

lemma analysis_result_Cons:
  "analysis_result (f # fs) = fragment_text f @ (if is_final f then [] else analysis_result fs)"
  by (simp add: analysis_result_def)

lemma analysis_result_Nil: "analysis_result [] = []"
  by (simp add: analysis_result_def)

lemma decode_lines_result:
  "decode_lines parse ls acc stopped n
     = (acc @ (if stopped then [] else analysis_result (List.map_filter parse ls)),
        n + length (List.map_filter parse ls))"
proof (induction ls arbitrary: acc stopped n)
  case Nil
  show ?case by (simp add: analysis_result_Nil)
next
  case (Cons l ls)
  show ?case
  proof (cases "parse l")
    case None
    then show ?thesis by (simp add: Cons.IH)
  next
    case (Some f)
    then show ?thesis
      by (simp add: Cons.IH analysis_result_Cons)
  qed
qed

lemma decode_stream_result:
  "decode_stream parse body
     = (if List.map_filter parse (split_lines body) = []
        then Inl (OllamaResponseError ''Empty response from Ollama'')
        else Inr (analysis_result (List.map_filter parse (split_lines body))))"
  by (simp add: decode_stream_def decode_lines_result)

lemma split_lines_from_append:
  "CHR 0x0A \<notin> set l \<Longrightarrow>
     split_lines_from cur (l @ CHR 0x0A # rest) = (cur @ l) # split_lines_from [] rest"
  by (induction l arbitrary: cur) auto

lemma map_filter_all_None:
  "(\<forall>l\<in>set ls. parse l = None) \<Longrightarrow> List.map_filter parse ls = []"
  by (induction ls) (simp_all add:)

text \<open>
  Claim C6. The decoder returns the texts of the parseable lines, concatenated in line
  order up to and including the first line with \<open>done = true\<close>; for the body of
  the two lines \<^verbatim>\<open>{"response":"a","done":false}\<close> and
  \<^verbatim>\<open>{"response":"b","done":true}\<close> it returns \<open>ab\<close>, whatever else the
  JSON decoding of a line does; for the empty body, and for a body none of whose lines
  parses, it raises \<^verbatim>\<open>OllamaResponseError\<close>.
\<close>

theorem decode_stream_contract:
  \<open>(List.map_filter parse (split_lines body) \<noteq> [] \<longrightarrow>
      decode_stream parse body
        = Inr (analysis_result (List.map_filter parse (split_lines body))))
   \<and> (parse2 ''{"response":"a","done":false}''
          = Some \<lparr>fragment_text = ''a'', is_final = False\<rparr>
      \<and> parse2 ''{"response":"b","done":true}''
          = Some \<lparr>fragment_text = ''b'', is_final = True\<rparr> \<longrightarrow>
      decode_stream parse2
          (''{"response":"a","done":false}'' @ [CHR 0x0A]
             @ ''{"response":"b","done":true}'' @ [CHR 0x0A])
        = Inr ''ab'')
   \<and> (\<exists>msg. decode_stream parse3 [] = Inl (OllamaResponseError msg))
   \<and> (List.map_filter parse4 (split_lines body4) = [] \<longrightarrow>
      (\<exists>msg. decode_stream parse4 body4 = Inl (OllamaResponseError msg)))\<close>
proof (intro conjI impI)
  assume "List.map_filter parse (split_lines body) \<noteq> []"
  then show "decode_stream parse body
        = Inr (analysis_result (List.map_filter parse (split_lines body)))"
    by (simp add: decode_stream_result)
next
  assume h: \<open>parse2 ''{"response":"a","done":false}''
          = Some \<lparr>fragment_text = ''a'', is_final = False\<rparr>
      \<and> parse2 ''{"response":"b","done":true}''
          = Some \<lparr>fragment_text = ''b'', is_final = True\<rparr>\<close>
  have lines: \<open>split_lines (''{"response":"a","done":false}'' @ [CHR 0x0A]
             @ ''{"response":"b","done":true}'' @ [CHR 0x0A])
         = [''{"response":"a","done":false}'', ''{"response":"b","done":true}'']\<close>
    by (simp add: split_lines_def)
  show \<open>decode_stream parse2
          (''{"response":"a","done":false}'' @ [CHR 0x0A]
             @ ''{"response":"b","done":true}'' @ [CHR 0x0A])
        = Inr ''ab''\<close>
    unfolding decode_stream_def lines using h by simp
next
  show "\<exists>msg. decode_stream parse3 [] = Inl (OllamaResponseError msg)"
    by (simp add: decode_stream_def split_lines_def)
next
  assume "List.map_filter parse4 (split_lines body4) = []"
  then show "\<exists>msg. decode_stream parse4 body4 = Inl (OllamaResponseError msg)"
    by (simp add: decode_stream_result)
qed

theorem decode_stream_contract_witness:
  \<open>List.map_filter
      (\<lambda>l. if l = ''{"response":"a","done":false}''
           then Some \<lparr>fragment_text = ''a'', is_final = False\<rparr>
           else if l = ''{"response":"b","done":true}''
           then Some \<lparr>fragment_text = ''b'', is_final = True\<rparr>
           else None)
      (split_lines (''{"response":"b","done":true}'' @ [CHR 0x0A] @ ''oops'' @ [CHR 0x0A]
                      @ ''{"response":"a","done":false}'')) \<noteq> []
   \<and> decode_stream
        (\<lambda>l. if l = ''{"response":"a","done":false}''
           then Some \<lparr>fragment_text = ''a'', is_final = False\<rparr>
           else if l = ''{"response":"b","done":true}''
           then Some \<lparr>fragment_text = ''b'', is_final = True\<rparr>
           else None)
        (''{"response":"b","done":true}'' @ [CHR 0x0A] @ ''oops'' @ [CHR 0x0A]
           @ ''{"response":"a","done":false}'')
       = (Inr ''b'' :: string py_exn + string)
   \<and> decode_stream
        (\<lambda>l. if l = ''{"response":"a","done":false}''
           then Some \<lparr>fragment_text = ''a'', is_final = False\<rparr>
           else if l = ''{"response":"b","done":true}''
           then Some \<lparr>fragment_text = ''b'', is_final = True\<rparr>
           else None)
        (''{"response":"a","done":false}'' @ [CHR 0x0A]
           @ ''{"response":"b","done":true}'' @ [CHR 0x0A])
       = (Inr ''ab'' :: string py_exn + string)
   \<and> List.map_filter
        (\<lambda>l. if l = ''{"response":"a","done":false}''
           then Some \<lparr>fragment_text = ''a'', is_final = False\<rparr>
           else if l = ''{"response":"b","done":true}''
           then Some \<lparr>fragment_text = ''b'', is_final = True\<rparr>
           else None)
        (split_lines (''oops'' @ [CHR 0x0A] @ [CHR 0x0A])) = []
   \<and> (\<exists>msg. decode_stream
        (\<lambda>l. if l = ''{"response":"a","done":false}''
           then Some \<lparr>fragment_text = ''a'', is_final = False\<rparr>
           else if l = ''{"response":"b","done":true}''
           then Some \<lparr>fragment_text = ''b'', is_final = True\<rparr>
           else None)
        (''oops'' @ [CHR 0x0A] @ [CHR 0x0A])
       = (Inl (OllamaResponseError msg) :: string py_exn + string))\<close>
  using decode_stream_contract
    [where ?'a = string and ?'b = string and ?'d = string
       and parse = \<open>\<lambda>l. if l = ''{"response":"a","done":false}''
           then Some \<lparr>fragment_text = ''a'', is_final = False\<rparr>
           else if l = ''{"response":"b","done":true}''
           then Some \<lparr>fragment_text = ''b'', is_final = True\<rparr>
           else None\<close>
       and body = \<open>''{"response":"b","done":true}'' @ [CHR 0x0A] @ ''oops'' @ [CHR 0x0A]
           @ ''{"response":"a","done":false}''\<close>
       and ?parse2.0 = \<open>\<lambda>l. if l = ''{"response":"a","done":false}''
           then Some \<lparr>fragment_text = ''a'', is_final = False\<rparr>
           else if l = ''{"response":"b","done":true}''
           then Some \<lparr>fragment_text = ''b'', is_final = True\<rparr>
           else None\<close>
       and ?parse4.0 = \<open>\<lambda>l. if l = ''{"response":"a","done":false}''
           then Some \<lparr>fragment_text = ''a'', is_final = False\<rparr>
           else if l = ''{"response":"b","done":true}''
           then Some \<lparr>fragment_text = ''b'', is_final = True\<rparr>
           else None\<close>
       and ?body4.0 = \<open>''oops'' @ [CHR 0x0A] @ [CHR 0x0A]\<close>
       and ?parse3.0 = \<open>\<lambda>l. None\<close> and ?'c = string]
  by (simp add: split_lines_def analysis_result_def)

section \<open>Properties of the Dockerfile block extractor\<close>

lemma split_at_fence_None: "split_at_fence s = None \<longleftrightarrow> \<not> sublist fence s"
proof (induction s)
  case Nil
  show ?case by (simp add: fence_def)
next
  case (Cons c cs)
  then show ?case by (simp add: sublist_Cons_right)
qed

lemma fence_length: "length fence = 3"
  by (simp add: fence_def)

lemma split_at_fence_first:
  "\<not> sublist fence (x @ take 2 fence) \<Longrightarrow> split_at_fence (x @ fence @ y) = Some (x, y)"
proof (induction x)
  case Nil
  show ?case by (simp add: fence_def)
next
  case (Cons c x)
  have no_prefix: "\<not> prefix fence (c # x @ fence @ y)"
  proof
    assume p: "prefix fence (c # x @ fence @ y)"
    have q: "prefix ((c # x) @ take 2 fence) (c # x @ fence @ y)"
      by (simp add: fence_def)
    have "prefix fence ((c # x) @ take 2 fence)"
      using p q by (rule prefix_length_prefix) (simp add: fence_def)
    then have "sublist fence ((c # x) @ take 2 fence)"
      by (rule prefix_imp_sublist)
    with Cons.prems show False by simp
  qed
  have "\<not> sublist fence (x @ take 2 fence)"
    using Cons.prems by (simp add: sublist_Cons_right)
  then have "split_at_fence (x @ fence @ y) = Some (x, y)"
    by (rule Cons.IH)
  then show ?case using no_prefix by simp
qed

lemma first_fenced_block_found:
  assumes "\<not> sublist fence (pre @ take 2 fence)"
    and "CHR 0x0A \<notin> set label"
    and "\<not> sublist fence (label @ [CHR 0x0A] @ body @ take 2 fence)"
  shows "first_fenced_block (pre @ fence @ label @ [CHR 0x0A] @ body @ fence @ post) = Some body"
proof -
  have a: "split_at_fence (pre @ fence @ label @ [CHR 0x0A] @ body @ fence @ post)
             = Some (pre, label @ [CHR 0x0A] @ body @ fence @ post)"
    using assms(1) by (rule split_at_fence_first)
  have "split_at_fence ((label @ [CHR 0x0A] @ body) @ fence @ post)
          = Some (label @ [CHR 0x0A] @ body, post)"
    using assms(3) by (intro split_at_fence_first) simp
  then have b: "split_at_fence (label @ [CHR 0x0A] @ body @ fence @ post)
          = Some (label @ [CHR 0x0A] @ body, post)"
    by simp
  have c: "dropWhile (\<lambda>c. c \<noteq> CHR 0x0A) (label @ [CHR 0x0A] @ body) = CHR 0x0A # body"
    using assms(2) by (auto simp: dropWhile_append3)
  show ?thesis
    unfolding first_fenced_block_def by (simp only: a b c option.case prod.case) simp
qed

lemma join_lines_prefix: "prefix l (join_lines (l # ls))"
  by (cases ls) simp_all

lemma extract_begins_with_FROM:
  "extract_dockerfile_content txt = Some d \<Longrightarrow> prefix ''FROM'' d"
  unfolding extract_dockerfile_content_def
  by (auto split: option.splits list.splits if_splits
        intro: prefix_order.trans [OF _ join_lines_prefix])

text \<open>
  Claim C7. The extractor is a total function into an optional string, so it has no
  failure path. A text without a fence yields absent. When the first fence, the rest
  of its line (the label) and the next fence enclose \<open>body\<close>, the result is the
  body with its blank lines trimmed at both ends if the first remaining line begins
  with \<^verbatim>\<open>FROM\<close>, and absent otherwise. Whatever is returned begins with
  \<^verbatim>\<open>FROM\<close>.
\<close>

theorem extractor_contract:
  "(\<not> sublist fence txt \<longrightarrow> extract_dockerfile_content txt = None)
   \<and> (\<not> sublist fence (pre @ take 2 fence) \<and> CHR 0x0A \<notin> set label
        \<and> \<not> sublist fence (label @ [CHR 0x0A] @ body @ take 2 fence) \<longrightarrow>
      extract_dockerfile_content (pre @ fence @ label @ [CHR 0x0A] @ body @ fence @ post)
        = (case trim_blank_lines (split_lines body) of
             [] \<Rightarrow> None
           | l # ls \<Rightarrow> if prefix ''FROM'' l then Some (join_lines (l # ls)) else None))
   \<and> (extract_dockerfile_content txt3 = Some d \<longrightarrow> prefix ''FROM'' d)"
proof (intro conjI impI)
  assume "\<not> sublist fence txt"
  then have "split_at_fence txt = None" by (simp add: split_at_fence_None)
  then show "extract_dockerfile_content txt = None"
    by (simp add: extract_dockerfile_content_def first_fenced_block_def)
next
  assume h: "\<not> sublist fence (pre @ take 2 fence) \<and> CHR 0x0A \<notin> set label
        \<and> \<not> sublist fence (label @ [CHR 0x0A] @ body @ take 2 fence)"
  then have "first_fenced_block (pre @ fence @ label @ [CHR 0x0A] @ body @ fence @ post)
               = Some body"
    by (intro first_fenced_block_found) simp_all
  then show "extract_dockerfile_content (pre @ fence @ label @ [CHR 0x0A] @ body @ fence @ post)
        = (case trim_blank_lines (split_lines body) of
             [] \<Rightarrow> None
           | l # ls \<Rightarrow> if prefix ''FROM'' l then Some (join_lines (l # ls)) else None)"
    by (simp only: extract_dockerfile_content_def option.case)
next
  assume "extract_dockerfile_content txt3 = Some d"
  then show "prefix ''FROM'' d" by (rule extract_begins_with_FROM)
qed

theorem extractor_contract_witness:
  "\<not> sublist fence ''This is just plain text with no Dockerfile''
   \<and> extract_dockerfile_content ''This is just plain text with no Dockerfile'' = None
   \<and> \<not> sublist fence (''Improved: '' @ take 2 fence)
   \<and> CHR 0x0A \<notin> set ''dockerfile''
   \<and> \<not> sublist fence (''dockerfile'' @ [CHR 0x0A]
          @ ([CHR 0x0A] @ ''FROM python:3.9-slim'' @ [CHR 0x0A] @ ''WORKDIR /app''
               @ [CHR 0x0A] @ ''  '' @ [CHR 0x0A])
          @ take 2 fence)
   \<and> extract_dockerfile_content
        (''Improved: '' @ fence @ ''dockerfile'' @ [CHR 0x0A]
          @ ([CHR 0x0A] @ ''FROM python:3.9-slim'' @ [CHR 0x0A] @ ''WORKDIR /app''
               @ [CHR 0x0A] @ ''  '' @ [CHR 0x0A])
          @ fence @ '' Better!'')
       = Some (''FROM python:3.9-slim'' @ [CHR 0x0A] @ ''WORKDIR /app'')
   \<and> prefix ''FROM'' (''FROM python:3.9-slim'' @ [CHR 0x0A] @ ''WORKDIR /app'')"
  using extractor_contract
    [of "''This is just plain text with no Dockerfile''" "''Improved: ''" "''dockerfile''"
        "[CHR 0x0A] @ ''FROM python:3.9-slim'' @ [CHR 0x0A] @ ''WORKDIR /app''
               @ [CHR 0x0A] @ ''  '' @ [CHR 0x0A]"
        "'' Better!''"
        "''Improved: '' @ fence @ ''dockerfile'' @ [CHR 0x0A]
          @ ([CHR 0x0A] @ ''FROM python:3.9-slim'' @ [CHR 0x0A] @ ''WORKDIR /app''
               @ [CHR 0x0A] @ ''  '' @ [CHR 0x0A])
          @ fence @ '' Better!''"
        "''FROM python:3.9-slim'' @ [CHR 0x0A] @ ''WORKDIR /app''"]
  by (simp add: fence_def sublist_Cons_right split_lines_def trim_blank_lines_def is_blank_def)
end
